theory Spec2Isabelle
  imports Main
begin

section \<open>Data model\<close>

text \<open>
  The scrape scripts drive a browser through Selenium and collect the rows of a
  virtualized grid into a pandas DataFrame. The embedding keeps the control flow of
  \<^verbatim>\<open>scrape_category.py\<close> (and of its siblings where a claim names them) and replaces
  the browser by a scripted environment: every call into Selenium either succeeds or
  raises, as the script says.

  A DataFrame with a fixed list of column names is a list of records; a record is a
  list of cells. A cell is a text read from the grid, an integer assigned by the worker
  (the year column), or the missing value that pandas pads a short row with.
\<close>

datatype cell = Str string | Num int | NA

type_synonym record_row = "cell list"
type_synonym frame = "record_row list"

text \<open>
  The exceptions that the modelled code raises or receives. The first five are the
  Selenium classes imported by the scripts; none of them is a subclass of another.
  \<open>SkippingCombination\<close> is the plain \<^verbatim>\<open>Exception('Skipping this ...')\<close> raised by the
  zero-row check of the worker.
\<close>

datatype exn =
    ElementClickInterceptedException
  | NoSuchElementException
  | TimeoutException
  | StaleElementReferenceException
  | ElementNotInteractableException
  | WebDriverException
  | TypeError
  | ValueError
  | IndexError
  | KeyError
  | AttributeError
  | OSError
  | SkippingCombination

text \<open>
  One look at the grid, \<^verbatim>\<open>driver.find_elements(By.CSS_SELECTOR, "div[role='row'][class*='row']")\<close>
  followed by a use of the handles: either the handles went stale before they were
  used, or the look saw the row elements, each with the texts of its grid cells. The
  simulated row source \<open>pg\<close> gives the outcome of the \<open>t\<close>-th look of a session.
\<close>

datatype attempt = Stale | Grid "string list list"

type_synonym source = "nat \<Rightarrow> attempt"

section \<open>Row Accumulator\<close>

text \<open>
  \<^verbatim>\<open>extract_visible_rows\<close>: up to five attempts; an attempt that succeeds returns the
  rows without the first row, each without its first cell
  (\<^verbatim>\<open>cells[1:]\<close>, \<^verbatim>\<open>extracted_data[1:]\<close>); when the budget is used up the loop ends and the
  function returns Python's \<^verbatim>\<open>None\<close>. The second component is the number of looks used
  so far.
\<close>

fun extract_attempts :: "nat \<Rightarrow> source \<Rightarrow> nat \<Rightarrow> string list list option \<times> nat" where
  "extract_attempts 0 pg t = (None, t)"
| "extract_attempts (Suc retries) pg t =
     (case pg t of
        Grid rows \<Rightarrow> (Some (drop 1 (map (drop 1) rows)), Suc t)
      | Stale \<Rightarrow> extract_attempts retries pg (Suc t))"

definition extract_visible_rows :: "source \<Rightarrow> nat \<Rightarrow> string list list option \<times> nat" where
  "extract_visible_rows pg t = extract_attempts 5 pg t"

text \<open>\<^verbatim>\<open>len(x)\<close> of the value returned by \<^verbatim>\<open>extract_visible_rows\<close>.\<close>

definition py_len :: "'a list option \<Rightarrow> exn + nat" where
  "py_len x = (case x of None \<Rightarrow> Inl TypeError | Some xs \<Rightarrow> Inr (length xs))"

text \<open>
  \<^verbatim>\<open>DataFrame.drop_duplicates()\<close> keeps the first occurrence of every record and the
  order of the survivors.
\<close>

definition drop_duplicates :: "'a list \<Rightarrow> 'a list" where
  "drop_duplicates xs = rev (remdups (rev xs))"

text \<open>
  \<^verbatim>\<open>df.iloc[-k:]\<close>: the last \<open>k\<close> records, all of them when there are fewer, and,
  since \<^verbatim>\<open>-0\<close> is \<^verbatim>\<open>0\<close>, all of them when \<open>k = 0\<close>.
\<close>

definition iloc_tail :: "nat \<Rightarrow> 'a list \<Rightarrow> 'a list" where
  "iloc_tail k df = (if k = 0 then df else drop (length df - k) df)"

text \<open>
  \<^verbatim>\<open>pd.DataFrame(data, columns = columns)\<close> for a list of rows: \<^verbatim>\<open>None\<close> and the empty
  list give the empty frame (line 190 of the script builds its empty frame that way);
  otherwise the widest row must have as many entries as there are columns, else
  \<^verbatim>\<open>ValueError\<close>, and shorter rows are padded with the missing value.
\<close>

definition pad_row :: "nat \<Rightarrow> string list \<Rightarrow> record_row" where
  "pad_row n r = map Str r @ replicate (n - length r) NA"

definition DataFrame :: "nat \<Rightarrow> string list list option \<Rightarrow> exn + frame" where
  "DataFrame ncols data =
     (case data of
        None \<Rightarrow> Inr []
      | Some rows \<Rightarrow>
          if rows = [] then Inr []
          else if fold max (map length rows) 0 \<noteq> ncols then Inl ValueError
          else Inr (map (pad_row ncols) rows))"

text \<open>
  \<^verbatim>\<open>driver.find_elements(...)[-1].location_once_scrolled_into_view\<close>: one more look;
  \<^verbatim>\<open>IndexError\<close> when no row element is found.
\<close>

definition scroll_last :: "source \<Rightarrow> nat \<Rightarrow> exn + nat" where
  "scroll_last pg t =
     (case pg t of
        Stale \<Rightarrow> Inl StaleElementReferenceException
      | Grid rows \<Rightarrow> if rows = [] then Inl IndexError else Inr (Suc t))"

text \<open>
  The \<^verbatim>\<open>while retries > 0\<close> loop of \<^verbatim>\<open>scrape_data\<close>. The loop may run forever, which is
  the value \<open>None\<close>; an exception inside the loop ends it with \<open>Inl\<close>.
\<close>

partial_function (option) scrape_loop ::
  "source \<Rightarrow> frame \<Rightarrow> nat \<Rightarrow> nat \<Rightarrow> ((exn + frame) \<times> nat) option" where
  "scrape_loop pg df retries t =
     (if retries > 0 then
        (case extract_visible_rows pg t of
           (new_rows, t1) \<Rightarrow>
             (case DataFrame 6 new_rows of
                Inl e \<Rightarrow> Some (Inl e, t1)
              | Inr new_df \<Rightarrow>
                  (case scroll_last pg t1 of
                     Inl e \<Rightarrow> Some (Inl e, t1)
                   | Inr t2 \<Rightarrow>
                       scrape_loop pg (drop_duplicates (df @ new_df))
                         (if df \<noteq> [] \<and> iloc_tail (length new_df) df = new_df
                          then retries - 1 else 5) t2)))
      else Some (Inr df, t))"

declare scrape_loop.simps [code]

text \<open>
  \<^verbatim>\<open>scrape_data\<close>: the loop from the empty frame with a budget of five. The
  \<^verbatim>\<open>except Exception\<close> clause logs and falls off the end of the function, so an
  exception inside the loop makes the function return \<^verbatim>\<open>None\<close>.
\<close>

definition scrape_data :: "source \<Rightarrow> nat \<Rightarrow> (frame option \<times> nat) option" where
  "scrape_data pg t =
     (case scrape_loop pg [] 5 t of
        None \<Rightarrow> None
      | Some (Inl e, t') \<Rightarrow> Some (None, t')
      | Some (Inr df, t') \<Rightarrow> Some (Some df, t'))"

text \<open>
  The same loop cut off after a number of read cycles: \<open>Inl\<close> holds the frame, the retry
  budget and the look counter of a loop that is still running, \<open>Inr\<close> the result of a
  loop that has ended.
\<close>

fun scrape_cycles ::
  "nat \<Rightarrow> source \<Rightarrow> frame \<Rightarrow> nat \<Rightarrow> nat \<Rightarrow> (frame \<times> nat \<times> nat) + ((exn + frame) \<times> nat)" where
  "scrape_cycles 0 pg df retries t =
     (if retries > 0 then Inl (df, retries, t) else Inr (Inr df, t))"
| "scrape_cycles (Suc n) pg df retries t =
     (if retries > 0 then
        (case extract_visible_rows pg t of
           (new_rows, t1) \<Rightarrow>
             (case DataFrame 6 new_rows of
                Inl e \<Rightarrow> Inr (Inl e, t1)
              | Inr new_df \<Rightarrow>
                  (case scroll_last pg t1 of
                     Inl e \<Rightarrow> Inr (Inl e, t1)
                   | Inr t2 \<Rightarrow>
                       scrape_cycles n pg (drop_duplicates (df @ new_df))
                         (if df \<noteq> [] \<and> iloc_tail (length new_df) df = new_df
                          then retries - 1 else 5) t2)))
      else Inr (Inr df, t))"

text \<open>A static table: every look sees the header row followed by the same rows.\<close>

definition static_source :: "string list \<Rightarrow> string list list \<Rightarrow> source" where
  "static_source header rows = (\<lambda>t. Grid (header # rows))"

section \<open>Filter Controller\<close>

text \<open>
  Each Selenium call of a selection function either returns (\<open>None\<close>) or raises
  (\<open>Some e\<close>). The calls are listed in the order in which the function makes them;
  the first one that raises ends the sequence.
\<close>

fun first_raise :: "exn option list \<Rightarrow> exn option" where
  "first_raise [] = None"
| "first_raise (None # calls) = first_raise calls"
| "first_raise (Some e # calls) = Some e"

record direct_ui =
  wait_dropdown :: "exn option"
  open_click :: "exn option"
  wait_option :: "exn option"
  option_click :: "exn option"
  close_click :: "exn option"

record search_ui = direct_ui +
  send_keys :: "exn option"

text \<open>
  \<^verbatim>\<open>select_option_from_dropdown\<close> of \<^verbatim>\<open>scrape_category.py\<close> (lines 217 to 241) has no
  \<^verbatim>\<open>try\<close>: the result is the exception that leaves the function, if any.
\<close>

definition select_option_from_dropdown :: "direct_ui \<Rightarrow> exn option" where
  "select_option_from_dropdown ui =
     first_raise [wait_dropdown ui, open_click ui, wait_option ui, option_click ui,
       close_click ui]"

text \<open>
  \<^verbatim>\<open>search_select_from_dropdown\<close> (lines 243 to 273) wraps its calls in
  \<^verbatim>\<open>except (ElementClickInterceptedException, NoSuchElementException, TimeoutException)\<close>.
  The result is the exception that leaves the function, if any, and the exception
  that was logged, if any.
\<close>

definition caught_by_search_select :: "exn \<Rightarrow> bool" where
  "caught_by_search_select e =
     (e = ElementClickInterceptedException \<or> e = NoSuchElementException \<or>
      e = TimeoutException)"

definition search_select_from_dropdown :: "search_ui \<Rightarrow> exn option \<times> exn option" where
  "search_select_from_dropdown ui =
     (case first_raise [wait_dropdown ui, open_click ui, send_keys ui, wait_option ui,
         option_click ui, close_click ui] of
        None \<Rightarrow> (None, None)
      | Some e \<Rightarrow> if caught_by_search_select e then (None, Some e) else (Some e, None))"

section \<open>Worker\<close>

text \<open>
  A unit of work is a (state, category, year) triple; it is also the key of its entry
  in the progress dictionary. What a worker does to the world is recorded as a trace
  of events, in order.
\<close>

type_synonym work_unit = "string \<times> string \<times> int"

datatype file_content = FrameCsv frame | LogCsv "cell list"

datatype event =
    ScrapeData
  | ToCsv string file_content
  | LogError exn
  | DriverQuit
  | LockAcquire
  | Increment work_unit
  | LockRelease

text \<open>
  The scripted environment of one worker: whether \<^verbatim>\<open>webdriver.Chrome\<close> raises, whether
  the steps from \<^verbatim>\<open>driver.get\<close> to the second \<^verbatim>\<open>clear_filters\<close> raise, the Selenium calls of
  the three selections, the row source, whether creating the output folders or writing
  the file raises, and whether \<^verbatim>\<open>driver.quit\<close> raises.
\<close>

record script =
  session :: "exn option"
  page_setup :: "exn option"
  sel_state :: search_ui
  sel_year :: direct_ui
  sel_category :: direct_ui
  page :: source
  save :: "exn option"
  quit :: "exn option"

text \<open>Decimal text of an integer, as an f-string prints it.\<close>

fun show_nat :: "nat \<Rightarrow> string" where
  "show_nat n =
     (if n < 10 then [char_of (n + 48)]
      else show_nat (n div 10) @ [char_of (n mod 10 + 48)])"

definition show_int :: "int \<Rightarrow> string" where
  "show_int i = (if i < 0 then CHR ''-'' # show_nat (nat (- i)) else show_nat (nat i))"

text \<open>
  Lines 391 to 398: the three dimension columns are appended to every record, then
  duplicates are dropped once more.
\<close>

definition add_columns :: "work_unit \<Rightarrow> frame \<Rightarrow> frame" where
  "add_columns u df =
     (case u of (state, category, year) \<Rightarrow>
        map (\<lambda>r. r @ [Str state, Str category, Num year]) df)"

definition csv_path :: "string \<Rightarrow> work_unit \<Rightarrow> string" where
  "csv_path output_folder u =
     (case u of (state, category, year) \<Rightarrow>
        output_folder @ ''/'' @ show_int year @ ''/'' @ state @ ''_'' @ show_int year @
        ''_'' @ category @ ''.csv'')"

text \<open>
  The \<^verbatim>\<open>try\<close> block of \<^verbatim>\<open>parallel_scrape_over_categories\<close> (lines 353 to 407). The result
  is the exception that leaves the block, if any, and the trace; \<open>None\<close> when the
  accumulation loop never ends.
\<close>

definition worker_body :: "string \<Rightarrow> script \<Rightarrow> work_unit \<Rightarrow> (exn option \<times> event list) option" where
  "worker_body output_folder sc u =
     (case page_setup sc of
        Some e \<Rightarrow> Some (Some e, [])
      | None \<Rightarrow>
     (case search_select_from_dropdown (sel_state sc) of
        (Some e, logged) \<Rightarrow> Some (Some e, [])
      | (None, logged) \<Rightarrow>
     (let tr = (case logged of None \<Rightarrow> [] | Some e \<Rightarrow> [LogError e]) in
     (case select_option_from_dropdown (sel_year sc) of
        Some e \<Rightarrow> Some (Some e, tr)
      | None \<Rightarrow>
     (case select_option_from_dropdown (sel_category sc) of
        Some e \<Rightarrow> Some (Some e, tr)
      | None \<Rightarrow>
     (case extract_visible_rows (page sc) 0 of
        (visible, t1) \<Rightarrow>
     (case py_len visible of
        Inl e \<Rightarrow> Some (Some e, tr)
      | Inr n \<Rightarrow>
          if n = 0 then Some (Some SkippingCombination, tr)
          else
            (case scrape_data (page sc) t1 of
               None \<Rightarrow> None
             | Some (None, t2) \<Rightarrow> Some (Some TypeError, tr @ [ScrapeData])
             | Some (Some df, t2) \<Rightarrow>
                 (case save sc of
                    Some e \<Rightarrow> Some (Some e, tr @ [ScrapeData])
                  | None \<Rightarrow>
                      Some (None, tr @ [ScrapeData,
                        ToCsv (csv_path output_folder u)
                          (FrameCsv (drop_duplicates (add_columns u df)))]))))))))))"

text \<open>
  The progress dictionary, with its entries in insertion order.
  \<^verbatim>\<open>progress[key] += 1\<close> raises \<^verbatim>\<open>KeyError\<close> for a key that is not there.
\<close>

type_synonym progress = "(work_unit \<times> int) list"

definition increment :: "work_unit \<Rightarrow> progress \<Rightarrow> exn + progress" where
  "increment u pr =
     (case map_of pr u of
        None \<Rightarrow> Inl KeyError
      | Some n \<Rightarrow> Inr (map (\<lambda>(k, v). if k = u then (k, v + 1) else (k, v)) pr))"

record worker_result =
  propagated :: "exn option"
  progress_after :: progress
  trace :: "event list"

text \<open>
  \<^verbatim>\<open>parallel_scrape_over_categories\<close>: the session is created before the \<^verbatim>\<open>try\<close> (line
  351); \<^verbatim>\<open>except Exception\<close> logs whatever leaves the block; the \<^verbatim>\<open>finally\<close> clause quits
  the driver and increments the unit's entry inside \<^verbatim>\<open>with lock\<close>.
\<close>

definition parallel_scrape_over_categories ::
  "string \<Rightarrow> script \<Rightarrow> work_unit \<Rightarrow> progress \<Rightarrow> worker_result option" where
  "parallel_scrape_over_categories output_folder sc u pr =
     (case session sc of
        Some e \<Rightarrow> Some \<lparr>propagated = Some e, progress_after = pr, trace = []\<rparr>
      | None \<Rightarrow>
     (case worker_body output_folder sc u of
        None \<Rightarrow> None
      | Some (raised, tr) \<Rightarrow>
     (let tr1 = tr @ (case raised of None \<Rightarrow> [] | Some e \<Rightarrow> [LogError e]) in
     (case quit sc of
        Some e \<Rightarrow> Some \<lparr>propagated = Some e, progress_after = pr, trace = tr1\<rparr>
      | None \<Rightarrow>
     (case increment u pr of
        Inl e \<Rightarrow>
          Some \<lparr>propagated = Some e, progress_after = pr,
            trace = tr1 @ [DriverQuit, LockAcquire, LockRelease]\<rparr>
      | Inr pr' \<Rightarrow>
          Some \<lparr>propagated = None, progress_after = pr',
            trace = tr1 @ [DriverQuit, LockAcquire, Increment u, LockRelease]\<rparr>)))))"

section \<open>Task Scheduler\<close>








section \<open>Locator Resolver\<close>

text \<open>
  A parsed document is a tree of tags and strings. An element of the document is a
  node together with the way up to the root: for every ancestor, nearest first, its
  name, its attributes, and the children to the left and to the right of the way. The
  last ancestor is the document object itself.

  BeautifulSoup compares two tags with \<^verbatim>\<open>==\<close> by name, attributes and contents, not by
  identity; that is the equality of \<open>node\<close>.
\<close>

datatype node = Tag string "(string \<times> string) list" "node list" | NavigableString string

type_synonym crumb = "string \<times> (string \<times> string) list \<times> node list \<times> node list"
type_synonym element = "node \<times> crumb list"

fun has_name :: "string \<Rightarrow> node \<Rightarrow> bool" where
  "has_name nm (Tag nm' attrs kids) = (nm' = nm)"
| "has_name nm (NavigableString s) = False"

text \<open>\<^verbatim>\<open>xs.index(x)\<close>: the position of the first entry equal to \<open>x\<close>.\<close>

fun index_of :: "'a \<Rightarrow> 'a list \<Rightarrow> nat option" where
  "index_of x [] = None"
| "index_of x (y # ys) =
     (if y = x then Some 0 else map_option Suc (index_of x ys))"

fun py_join :: "string \<Rightarrow> string list \<Rightarrow> string" where
  "py_join sep [] = []"
| "py_join sep [x] = x"
| "py_join sep (x # y # ys) = x @ sep @ py_join sep (y # ys)"

text \<open>
  The \<^verbatim>\<open>for parent in child.parents\<close> loop of \<^verbatim>\<open>get_xpath\<close> (lines 81 to 87): the tag
  \<open>Tag nm attrs kids\<close> is \<^verbatim>\<open>child\<close>, the crumbs are its remaining ancestors. The components
  come out in the order in which the loop appends them.
\<close>

fun components ::
  "string \<Rightarrow> (string \<times> string) list \<Rightarrow> node list \<Rightarrow> crumb list \<Rightarrow> exn + string list" where
  "components nm attrs kids [] = Inr []"
| "components nm attrs kids ((pname, pattrs, left, right) # up) =
     (let child = Tag nm attrs kids;
          siblings = filter (has_name nm) (left @ child # right)
      in case (if length siblings > 1
               then (case index_of child siblings of
                       None \<Rightarrow> Inl ValueError
                     | Some i \<Rightarrow> Inr (nm @ ''['' @ show_nat (i + 1) @ '']''))
               else Inr nm) of
           Inl e \<Rightarrow> Inl e
         | Inr c \<Rightarrow>
             (case components pname pattrs (left @ child # right) up of
                Inl e \<Rightarrow> Inl e
              | Inr rest \<Rightarrow> Inr (c # rest)))"

text \<open>
  \<^verbatim>\<open>get_xpath\<close>: \<^verbatim>\<open>None\<close> for \<^verbatim>\<open>None\<close>; a string, whose name is \<^verbatim>\<open>None\<close>, is replaced by its
  parent (a string without a parent has no \<^verbatim>\<open>parents\<close>: \<^verbatim>\<open>AttributeError\<close>).
\<close>

fun get_xpath :: "element option \<Rightarrow> exn + string option" where
  "get_xpath None = Inr None"
| "get_xpath (Some (Tag nm attrs kids, up)) =
     (if nm \<noteq> [] then
        (case components nm attrs kids up of
           Inl e \<Rightarrow> Inl e
         | Inr cs \<Rightarrow> Inr (Some (''/'' @ py_join ''/'' (rev cs))))
      else
        (case up of
           [] \<Rightarrow> Inl AttributeError
         | (pname, pattrs, left, right) # up' \<Rightarrow>
             (case components pname pattrs (left @ Tag nm attrs kids # right) up' of
                Inl e \<Rightarrow> Inl e
              | Inr cs \<Rightarrow> Inr (Some (''/'' @ py_join ''/'' (rev cs))))))"
| "get_xpath (Some (NavigableString s, up)) =
     (case up of
        [] \<Rightarrow> Inl AttributeError
      | (pname, pattrs, left, right) # up' \<Rightarrow>
          (case components pname pattrs (left @ NavigableString s # right) up' of
             Inl e \<Rightarrow> Inl e
           | Inr cs \<Rightarrow> Inr (Some (''/'' @ py_join ''/'' (rev cs)))))"

section \<open>Completeness Checker\<close>















text \<open>The files that a trace writes, and whether a file holds figures.\<close>

fun written :: "event list \<Rightarrow> (string \<times> file_content) list" where
  "written [] = []"
| "written (ToCsv path c # evs) = (path, c) # written evs"
| "written (ev # evs) = written evs"


text \<open>
  A look that shows nothing new: it is not stale, its window (the rows after the first,
  as records) is not empty, and the window is the tail of the accumulated frame.
\<close>

definition stalled_look :: "frame \<Rightarrow> attempt \<Rightarrow> bool" where
  "stalled_look df a =
     (case a of
        Stale \<Rightarrow> False
      | Grid rows \<Rightarrow>
          (case DataFrame 6 (Some (drop 1 (map (drop 1) rows))) of
             Inl e \<Rightarrow> False
           | Inr w \<Rightarrow> w \<noteq> [] \<and> length w \<le> length df \<and> drop (length df - length w) df = w))"

text \<open>
  The records that the data rows of a source give: a look at the grid, a row of it other
  than the first, the row without its first cell, as a record over the six columns.
\<close>

definition data_records :: "source \<Rightarrow> record_row set" where
  "data_records pg =
     {pad_row 6 (drop 1 (rows ! i)) | t rows i. pg t = Grid rows \<and> 0 < i \<and> i < length rows}"


section \<open>Example data\<close>

text \<open>
  A header row and two data rows of the trainee table as a look sees them (the first
  cell of every row is the one that \<^verbatim>\<open>cells[1:]\<close> drops), the records built from the two
  data rows, and a session in which every Selenium call succeeds and the grid is given
  by a row source.
\<close>

definition header_row :: "string list" where
  "header_row = [''Select Row'', ''Trainee Reg No'', ''TraineeName'', ''Gender'',
     ''FatherGuardianName'', ''MotherName'', ''Trade'']"

definition row_a :: "string list" where
  "row_a = [''Select Row'', ''R150001'', ''ASHA'', ''Female'', ''RAM'', ''SITA'', ''Fitter'']"

definition row_b :: "string list" where
  "row_b = [''Select Row'', ''R150002'', ''RAVI'', ''Male'', ''MOHAN'', ''GITA'', ''Welder'']"

definition record_a :: record_row where
  "record_a = [Str ''R150001'', Str ''ASHA'', Str ''Female'', Str ''RAM'', Str ''SITA'',
     Str ''Fitter'']"

definition record_b :: record_row where
  "record_b = [Str ''R150002'', Str ''RAVI'', Str ''Male'', Str ''MOHAN'', Str ''GITA'',
     Str ''Welder'']"

definition ok_direct_ui :: direct_ui where
  "ok_direct_ui = \<lparr>wait_dropdown = None, open_click = None, wait_option = None,
     option_click = None, close_click = None\<rparr>"

definition ok_search_ui :: search_ui where
  "ok_search_ui = \<lparr>wait_dropdown = None, open_click = None, wait_option = None,
     option_click = None, close_click = None, send_keys = None\<rparr>"

definition ok_script :: "source \<Rightarrow> script" where
  "ok_script pg = \<lparr>session = None, page_setup = None, sel_state = ok_search_ui,
     sel_year = ok_direct_ui, sel_category = ok_direct_ui, page = pg, save = None,
     quit = None\<rparr>"

section \<open>Facts about the Row Accumulator\<close>

lemma distinct_drop_duplicates: "distinct (drop_duplicates xs)"
  by (simp add: drop_duplicates_def)

lemma set_drop_duplicates: "set (drop_duplicates xs) = set xs"
  by (simp add: drop_duplicates_def)

lemma extract_attempts_Some:
  "extract_attempts n pg t = (Some w, t1) \<Longrightarrow>
     \<exists>t' rows. pg t' = Grid rows \<and> w = drop 1 (map (drop 1) rows)"
  by (induction n pg t rule: extract_attempts.induct) (auto split: attempt.splits)

lemma extract_visible_rows_Grid:
  "pg t = Grid rows \<Longrightarrow> extract_visible_rows pg t = (Some (drop 1 (map (drop 1) rows)), Suc t)"
  by (simp add: extract_visible_rows_def eval_nat_numeral)

lemma remdups_append_subset: "set xs \<subseteq> set ys \<Longrightarrow> remdups (xs @ ys) = remdups ys"
  by (induction xs) auto

lemma drop_duplicates_absorb:
  "distinct df \<Longrightarrow> set w \<subseteq> set df \<Longrightarrow> drop_duplicates (df @ w) = df"
  by (simp add: drop_duplicates_def remdups_append_subset distinct_remdups_id)

lemma stalled_look_rows: "stalled_look df a \<Longrightarrow> \<exists>rows. a = Grid rows \<and> rows \<noteq> []"
proof (cases a)
  case Stale
  assume "stalled_look df a"
  with Stale show ?thesis by (simp add: stalled_look_def)
next
  case (Grid rows)
  assume "stalled_look df a"
  with Grid have "rows \<noteq> []" by (auto simp: stalled_look_def DataFrame_def)
  with Grid show ?thesis by simp
qed

lemma scrape_cycles_Inr:
  "scrape_cycles n pg df r t = Inr res \<Longrightarrow> scrape_loop pg df r t = Some res"
proof (induction n arbitrary: df r t)
  case 0
  then show ?case by (subst scrape_loop.simps) (simp split: if_splits)
next
  case (Suc n)
  show ?case
    apply (subst scrape_loop.simps)
    using Suc.prems Suc.IH
    by (auto split: if_splits prod.splits sum.splits)
qed

lemma stalled_cycle:
  assumes st: "stalled_look df (pg t)" and sc: "stalled_look df (pg (Suc t))"
    and d: "distinct df" and r: "0 < r"
  shows "scrape_cycles (Suc n) pg df r t = scrape_cycles n pg df (r - 1) (Suc (Suc t))"
proof -
  from st obtain rows w where g: "pg t = Grid rows"
    and w: "DataFrame 6 (Some (drop 1 (map (drop 1) rows))) = Inr w"
    and ne: "w \<noteq> []" and len: "length w \<le> length df"
    and tl: "drop (length df - length w) df = w"
    by (auto simp: stalled_look_def split: attempt.splits sum.splits)
  from sc obtain rows' where g': "pg (Suc t) = Grid rows'" and ne': "rows' \<noteq> []"
    using stalled_look_rows by blast
  have sub: "set w \<subseteq> set df" using tl by (metis set_drop_subset)
  have dfne: "df \<noteq> []" using ne len by auto
  show ?thesis
    using r g g' ne' w ne tl dfne d sub
    by (simp add: extract_visible_rows_Grid scroll_last_def iloc_tail_def drop_duplicates_absorb)
qed

lemma stalled_cycles:
  assumes "\<forall>t' \<ge> t. stalled_look df (pg t')" "distinct df" "k \<le> r"
  shows "scrape_cycles k pg df r t =
     (if k < r then Inl (df, r - k, t + 2 * k) else Inr (Inr df, t + 2 * k))"
  using assms
proof (induction k arbitrary: r t)
  case 0
  then show ?case by simp
next
  case (Suc k)
  have "scrape_cycles (Suc k) pg df r t = scrape_cycles k pg df (r - 1) (Suc (Suc t))"
    using Suc.prems by (intro stalled_cycle) auto
  also have "\<dots> = (if k < r - 1 then Inl (df, r - 1 - k, Suc (Suc t) + 2 * k)
       else Inr (Inr df, Suc (Suc t) + 2 * k))"
    using Suc.prems by (intro Suc.IH) auto
  finally show ?case using Suc.prems by auto
qed

lemma scrape_loop_cycles:
  assumes "scrape_loop pg df r t = Some res"
  shows "\<exists>n. scrape_cycles n pg df r t = Inr res"
proof (rule scrape_loop.raw_induct
    [where P = "\<lambda>pg df r t res. \<exists>n. scrape_cycles n pg df r t = Inr res", OF _ assms],
    goal_cases)
  case (1 loop pg df r t res)
  show ?case
  proof (cases "0 < r")
    case False
    with 1(2) have "scrape_cycles 0 pg df r t = Inr res" by simp
    then show ?thesis ..
  next
    case True
    obtain w t1 where e: "extract_visible_rows pg t = (w, t1)" by force
    show ?thesis
    proof (cases "DataFrame 6 w")
      case (Inl e1)
      with True e 1(2) have "scrape_cycles (Suc 0) pg df r t = Inr res" by simp
      then show ?thesis ..
    next
      case (Inr new_df)
      show ?thesis
      proof (cases "scroll_last pg t1")
        case (Inl e2)
        with True e Inr 1(2) have "scrape_cycles (Suc 0) pg df r t = Inr res" by simp
        then show ?thesis ..
      next
        case (Inr t2)
        with True e \<open>DataFrame 6 w = Inr new_df\<close> 1(2)
        have "loop pg (drop_duplicates (df @ new_df))
            (if df \<noteq> [] \<and> iloc_tail (length new_df) df = new_df then r - 1 else 5) t2 = Some res"
          by simp
        from 1(1)[OF this] obtain n where
          "scrape_cycles n pg (drop_duplicates (df @ new_df))
            (if df \<noteq> [] \<and> iloc_tail (length new_df) df = new_df then r - 1 else 5) t2 = Inr res" ..
        with True e \<open>DataFrame 6 w = Inr new_df\<close> Inr
        have "scrape_cycles (Suc n) pg df r t = Inr res" by simp
        then show ?thesis ..
      qed
    qed
  qed
qed

lemma scrape_loop_None:
  "(\<And>n. \<exists>st. scrape_cycles n pg df r t = Inl st) \<Longrightarrow> scrape_loop pg df r t = None"
proof (rule ccontr)
  assume a: "\<And>n. \<exists>st. scrape_cycles n pg df r t = Inl st"
  assume "scrape_loop pg df r t \<noteq> None"
  then obtain res where "scrape_loop pg df r t = Some res" by auto
  then obtain n where "scrape_cycles n pg df r t = Inr res" using scrape_loop_cycles by blast
  with a[of n] show False by auto
qed

lemma scrape_cycles_more:
  "scrape_cycles n pg df r t = Inr res \<Longrightarrow> scrape_cycles (n + m) pg df r t = Inr res"
proof (induction n arbitrary: df r t)
  case 0
  then show ?case by (cases m) (simp_all split: if_splits)
next
  case (Suc n)
  then show ?case by (auto split: if_splits prod.splits sum.splits)
qed

lemma static_stalled:
  assumes "DataFrame 6 (Some (map (drop 1) rows)) = Inr df" "df \<noteq> []"
  shows "stalled_look df (static_source header rows t)"
  using assms by (simp add: static_source_def stalled_look_def drop_map)

lemma header_only_cycles:
  assumes "\<forall>t' \<ge> t. \<exists>h. pg t' = Grid [h]" and "distinct df" and "0 < r"
  shows "scrape_cycles n pg df r t = Inl (df, if n = 0 then r else 5, t + 2 * n)"
  using assms
proof (induction n arbitrary: r t)
  case 0
  then show ?case by simp
next
  case (Suc n)
  from Suc.prems(1) obtain h h' where g: "pg t = Grid [h]" and g': "pg (Suc t) = Grid [h']"
    by (metis le_refl le_Suc_eq)
  have step: "scrape_cycles (Suc n) pg df r t = scrape_cycles n pg df 5 (Suc (Suc t))"
    using g g' Suc.prems(2,3)
    by (simp add: extract_visible_rows_Grid DataFrame_def scroll_last_def iloc_tail_def
        drop_duplicates_def distinct_remdups_id)
  have "scrape_cycles n pg df 5 (Suc (Suc t)) =
      Inl (df, if n = 0 then 5 else 5, Suc (Suc t) + 2 * n)"
    using Suc.prems by (intro Suc.IH) auto
  with step show ?case by simp
qed

lemma header_only_diverges:
  assumes "\<forall>t' \<ge> t. \<exists>h. pg t' = Grid [h]" and "distinct df" and "0 < r"
  shows "scrape_loop pg df r t = None"
  by (rule scrape_loop_None) (simp add: header_only_cycles [OF assms])

lemma first_cycle:
  assumes "pg t = Grid rows" "pg (Suc t) = Grid rows'" "rows' \<noteq> []"
    "DataFrame 6 (Some (drop 1 (map (drop 1) rows))) = Inr w"
  shows "scrape_cycles (Suc n) pg [] 5 t = scrape_cycles n pg (drop_duplicates w) 5 (Suc (Suc t))"
  using assms by (simp add: extract_visible_rows_Grid scroll_last_def)

lemma first_cycle_loop:
  assumes "pg t = Grid rows" "pg (Suc t) = Grid rows'" "rows' \<noteq> []"
    "DataFrame 6 (Some (drop 1 (map (drop 1) rows))) = Inr w"
  shows "scrape_loop pg [] 5 t = scrape_loop pg (drop_duplicates w) 5 (Suc (Suc t))"
  using assms by (subst scrape_loop.simps) (simp add: extract_visible_rows_Grid scroll_last_def)

lemma length_drop_duplicates: "\<not> distinct w \<Longrightarrow> length (drop_duplicates w) < length w"
proof -
  assume a: "\<not> distinct w"
  have "length (remdups (rev w)) \<le> length (rev w)" by (rule length_remdups_leq)
  moreover have "length (remdups (rev w)) = length (rev w) \<longleftrightarrow> distinct (rev w)"
    by (simp only: length_remdups_eq remdups_id_iff_distinct)
  then have "length (remdups (rev w)) \<noteq> length (rev w)"
    using a by simp
  ultimately show ?thesis by (simp add: drop_duplicates_def)
qed

lemma duplicate_window_cycles:
  assumes "\<forall>t' \<ge> t. \<exists>rows. pg t' = Grid rows \<and> rows \<noteq> [] \<and>
      DataFrame 6 (Some (drop 1 (map (drop 1) rows))) = Inr w"
    and "\<not> distinct w" and "0 < r"
  shows "scrape_cycles n pg (drop_duplicates w) r t =
     Inl (drop_duplicates w, if n = 0 then r else 5, t + 2 * n)"
  using assms
proof (induction n arbitrary: r t)
  case 0
  then show ?case by simp
next
  case (Suc n)
  let ?df = "drop_duplicates w"
  from Suc.prems(1) obtain rows where g: "pg t = Grid rows"
    and w: "DataFrame 6 (Some (drop 1 (map (drop 1) rows))) = Inr w"
    by (metis le_refl)
  from Suc.prems(1) obtain rows' where g': "pg (Suc t) = Grid rows'" and ne: "rows' \<noteq> []"
    by (metis le_Suc_eq le_refl)
  have lt: "length ?df < length w" using Suc.prems(2) by (rule length_drop_duplicates)
  then have neq: "iloc_tail (length w) ?df \<noteq> w"
    by (auto simp: iloc_tail_def)
  have absorb: "drop_duplicates (?df @ w) = ?df"
    by (rule drop_duplicates_absorb) (simp_all add: distinct_drop_duplicates set_drop_duplicates)
  have step: "scrape_cycles (Suc n) pg ?df r t = scrape_cycles n pg ?df 5 (Suc (Suc t))"
    using g g' ne w neq absorb Suc.prems(3)
    by (simp add: extract_visible_rows_Grid scroll_last_def)
  have "scrape_cycles n pg ?df 5 (Suc (Suc t)) =
      Inl (?df, if n = 0 then 5 else 5, Suc (Suc t) + 2 * n)"
    using Suc.prems by (intro Suc.IH) auto
  with step show ?case by simp
qed

lemma duplicate_window_diverges:
  assumes "\<forall>t' \<ge> t. \<exists>rows. pg t' = Grid rows \<and> rows \<noteq> [] \<and>
      DataFrame 6 (Some (drop 1 (map (drop 1) rows))) = Inr w"
    and "\<not> distinct w" and "0 < r"
  shows "scrape_loop pg (drop_duplicates w) r t = None"
  by (rule scrape_loop_None) (simp add: duplicate_window_cycles [OF assms])

lemma extract_all_stale:
  "\<forall>i<n. pg (t + i) = Stale \<Longrightarrow> extract_attempts n pg t = (None, t + n)"
proof (induction n arbitrary: t)
  case 0
  then show ?case by simp
next
  case (Suc n)
  from Suc.prems have "pg t = Stale" by (metis add.right_neutral zero_less_Suc)
  moreover have "\<forall>i<n. pg (Suc t + i) = Stale" using Suc.prems by auto
  then have "extract_attempts n pg (Suc t) = (None, Suc t + n)" by (rule Suc.IH)
  ultimately show ?case by simp
qed

lemma window_records:
  assumes "extract_visible_rows pg t = (w, t1)" and "DataFrame 6 w = Inr new_df"
  shows "set new_df \<subseteq> data_records pg"
proof (cases w)
  case None
  with assms(2) show ?thesis by (simp add: DataFrame_def)
next
  case (Some win)
  with assms(1) obtain t' rows where g: "pg t' = Grid rows"
    and win: "win = drop 1 (map (drop 1) rows)"
    unfolding extract_visible_rows_def using extract_attempts_Some by blast
  have "set new_df \<subseteq> pad_row 6 ` set win"
    using assms(2) Some by (auto simp: DataFrame_def split: if_splits)
  moreover have "pad_row 6 r \<in> data_records pg" if "r \<in> set win" for r
  proof -
    from that win obtain j where j: "j < length win" and r: "r = win ! j"
      by (auto simp: in_set_conv_nth)
    have len: "length win = length rows - 1" using win by simp
    have "win ! j = drop 1 (rows ! Suc j)" using j len win by (simp add: drop_map)
    with j len r g show ?thesis
      unfolding data_records_def by (intro CollectI exI [of _ t'] exI [of _ rows] exI [of _ "Suc j"]) auto
  qed
  ultimately show ?thesis by auto
qed

lemma scrape_cycles_invariant:
  "scrape_cycles n pg df r t = Inr (Inr out, t') \<Longrightarrow> distinct df \<Longrightarrow>
     set df \<subseteq> data_records pg \<Longrightarrow> distinct out \<and> set out \<subseteq> data_records pg"
proof (induction n arbitrary: df r t)
  case 0
  then show ?case by (simp split: if_splits)
next
  case (Suc n)
  show ?case
  proof (cases "0 < r")
    case False
    with Suc.prems show ?thesis by simp
  next
    case True
    obtain w t1 where e: "extract_visible_rows pg t = (w, t1)" by force
    from True e Suc.prems(1) obtain new_df t2 where
      d: "DataFrame 6 w = Inr new_df" and s: "scroll_last pg t1 = Inr t2"
      and rec: "scrape_cycles n pg (drop_duplicates (df @ new_df))
        (if df \<noteq> [] \<and> iloc_tail (length new_df) df = new_df then r - 1 else 5) t2 =
        Inr (Inr out, t')"
      by (auto split: sum.splits)
    have "set new_df \<subseteq> data_records pg" using e d by (rule window_records)
    with Suc.prems(3) have sub: "set (drop_duplicates (df @ new_df)) \<subseteq> data_records pg"
      by (simp add: set_drop_duplicates)
    show ?thesis
      by (rule Suc.IH [OF rec distinct_drop_duplicates sub])
  qed
qed

lemma scrape_data_records:
  assumes "scrape_data pg t = Some (Some df, t')"
  shows "distinct df \<and> set df \<subseteq> data_records pg"
proof -
  from assms have "scrape_loop pg [] 5 t = Some (Inr df, t')"
    by (auto simp: scrape_data_def split: option.splits sum.splits)
  then obtain n where "scrape_cycles n pg [] 5 t = Inr (Inr df, t')"
    using scrape_loop_cycles by blast
  then show ?thesis by (rule scrape_cycles_invariant) simp_all
qed

lemma worker_body_csv:
  assumes "worker_body output_folder sc u = Some (raised, tr)"
    and "ToCsv path (FrameCsv rs) \<in> set tr"
  shows "\<exists>df t t'. scrape_data (page sc) t = Some (Some df, t') \<and>
    rs = drop_duplicates (add_columns u df)"
  using assms
  apply (auto simp: worker_body_def Let_def split: option.splits prod.splits sum.splits if_splits)
   apply blast+
  done

lemma worker_csv:
  assumes "parallel_scrape_over_categories output_folder sc u pr = Some res"
    and "ToCsv path (FrameCsv rs) \<in> set (trace res)"
  shows "\<exists>df t t'. scrape_data (page sc) t = Some (Some df, t') \<and>
    rs = drop_duplicates (add_columns u df)"
proof -
  from assms obtain raised tr where b: "worker_body output_folder sc u = Some (raised, tr)"
    and "ToCsv path (FrameCsv rs) \<in> set tr"
    by (auto simp: parallel_scrape_over_categories_def Let_def
        split: option.splits prod.splits sum.splits)
  then show ?thesis by (rule worker_body_csv)
qed




















section \<open>Locator Resolver: the sibling index\<close>

text \<open>
  C9. The address returned by \<^verbatim>\<open>get_xpath\<close> is meant to lead from the document root to
  the element, with the 1-based position of the element among the children of the same
  name wherever there is more than one. The position is taken with
  \<^verbatim>\<open>siblings.index(child)\<close>, which compares tags by name, attributes and contents. In the
  document \<^verbatim>\<open><ul><li>a</li><li>a</li></ul>\<close> the second \<^verbatim>\<open>li\<close> is therefore given the
  address \<^verbatim>\<open>/ul/li[1]\<close>, the address of the first \<^verbatim>\<open>li\<close>, instead of \<^verbatim>\<open>/ul/li[2]\<close>. The
  theorem evaluates the function at the second and at the first \<^verbatim>\<open>li\<close> of that document.
\<close>

theorem get_xpath_equal_siblings:
  "get_xpath (Some (Tag ''li'' [] [NavigableString ''a''],
       [(''ul'', [], [Tag ''li'' [] [NavigableString ''a'']], []),
        (''[document]'', [], [], [])]))
     = Inr (Some ''/ul/li[1]'') \<and>
   get_xpath (Some (Tag ''li'' [] [NavigableString ''a''],
       [(''ul'', [], [], [Tag ''li'' [] [NavigableString ''a'']]),
        (''[document]'', [], [], [])]))
     = Inr (Some ''/ul/li[1]'')"
  by code_simp

section \<open>Filter Controller: which errors are caught\<close>

lemma first_raise_None: "first_raise calls = None \<longleftrightarrow> list_all (\<lambda>c. c = None) calls"
  by (induction calls rule: first_raise.induct) simp_all

text \<open>
  C8, as amended. Search-select catches a click intercepted by an overlay, a missing
  element and a timeout: it logs the error and returns normally. Every other error,
  staleness and an element that is not interactable among them, leaves search-select.
  Direct-select has no handler at all: it returns normally exactly when none of its
  five calls raises, and otherwise the error of the first failing call leaves it.
\<close>

theorem selection_errors_caught:
  "(select_option_from_dropdown d = None \<longleftrightarrow>
      wait_dropdown d = None \<and> open_click d = None \<and> wait_option d = None \<and>
      option_click d = None \<and> close_click d = None) \<and>
   (first_raise [wait_dropdown ui, open_click ui, send_keys ui, wait_option ui,
        option_click ui, close_click ui] = None \<longrightarrow>
      search_select_from_dropdown ui = (None, None)) \<and>
   (\<forall>e. first_raise [wait_dropdown ui, open_click ui, send_keys ui, wait_option ui,
        option_click ui, close_click ui] = Some e \<longrightarrow>
      search_select_from_dropdown ui =
        (if e = ElementClickInterceptedException \<or> e = NoSuchElementException \<or>
            e = TimeoutException
         then (None, Some e) else (Some e, None)))"
  by (simp add: select_option_from_dropdown_def search_select_from_dropdown_def
      caught_by_search_select_def first_raise_None)

theorem selection_errors_caught_witness:
  "first_raise [None, Some TimeoutException, None, None, None, None] = Some TimeoutException \<and>
   search_select_from_dropdown
     \<lparr>wait_dropdown = None, open_click = Some TimeoutException, wait_option = None,
      option_click = None, close_click = None, send_keys = None\<rparr> =
     (None, Some TimeoutException) \<and>
   first_raise [None, None, None, None, None, None] = None \<and>
   search_select_from_dropdown
     \<lparr>wait_dropdown = None, open_click = None, wait_option = None,
      option_click = None, close_click = None, send_keys = None\<rparr> = (None, None)"
  using selection_errors_caught [of
      "\<lparr>wait_dropdown = None, open_click = None, wait_option = None,
        option_click = None, close_click = None\<rparr>"
      "\<lparr>wait_dropdown = None, open_click = Some TimeoutException, wait_option = None,
        option_click = None, close_click = None, send_keys = None\<rparr>"]
    selection_errors_caught [of
      "\<lparr>wait_dropdown = None, open_click = None, wait_option = None,
        option_click = None, close_click = None\<rparr>"
      "\<lparr>wait_dropdown = None, open_click = None, wait_option = None,
        option_click = None, close_click = None, send_keys = None\<rparr>"]
  by simp

text \<open>
  C8 as stated fails: a timeout while direct-select waits for the option leaves
  \<^verbatim>\<open>select_option_from_dropdown\<close>, and staleness at the opening click leaves
  \<^verbatim>\<open>search_select_from_dropdown\<close>.
\<close>

theorem selection_errors_counterexample:
  "select_option_from_dropdown
     \<lparr>wait_dropdown = None, open_click = None, wait_option = Some TimeoutException,
      option_click = None, close_click = None\<rparr> = Some TimeoutException \<and>
   search_select_from_dropdown
     \<lparr>wait_dropdown = None, open_click = Some StaleElementReferenceException,
      wait_option = None, option_click = None, close_click = None, send_keys = None\<rparr> =
     (Some StaleElementReferenceException, None)"
  by (simp add: select_option_from_dropdown_def search_select_from_dropdown_def
      caught_by_search_select_def)

section \<open>Row Accumulator: a source that shows nothing new\<close>

text \<open>
  Where the stall test works. Let the loop stand at a frame without duplicates and with
  a positive retry budget of at most five, and let every look from then on, the looks
  of the reads and the looks of the scrolls alike, be a look that shows nothing new in
  the sense of \<open>stalled_look\<close>: it is not stale, its window is not empty and is the tail
  of the accumulated frame. Then every read cycle decrements the budget by one and
  never resets it, the frame stays as it is, and the loop ends after as many read
  cycles as the budget had left, hence within five; it returns the frame.
\<close>

lemma stalled_source_done:
  assumes "\<forall>t' \<ge> t. stalled_look df (pg t')" and "distinct df"
    and "0 < retries" and "retries \<le> 5"
  shows "scrape_loop pg df retries t = Some (Inr df, t + 2 * retries) \<and>
    (\<forall>k < retries. scrape_cycles k pg df retries t = Inl (df, retries - k, t + 2 * k)) \<and>
    scrape_cycles 5 pg df retries t = Inr (Inr df, t + 2 * retries)"
proof -
  have ended: "scrape_cycles retries pg df retries t = Inr (Inr df, t + 2 * retries)"
    using stalled_cycles [OF assms(1,2), of retries retries] by simp
  have running: "\<forall>k < retries. scrape_cycles k pg df retries t = Inl (df, retries - k, t + 2 * k)"
    using stalled_cycles [OF assms(1,2)] by simp
  from ended have "scrape_cycles (retries + (5 - retries)) pg df retries t =
      Inr (Inr df, t + 2 * retries)"
    by (rule scrape_cycles_more)
  with assms(4) have five: "scrape_cycles 5 pg df retries t = Inr (Inr df, t + 2 * retries)"
    by simp
  from ended have "scrape_loop pg df retries t = Some (Inr df, t + 2 * retries)"
    by (rule scrape_cycles_Inr)
  with running five show ?thesis by simp
qed

text \<open>
  C2. A source that stops producing new rows is to bring the accumulation loop to its
  end: every read whose window is already the tail of the accumulated frame is to
  decrement the retry budget, without a reset, so that the loop is done within five
  further read cycles. The stall test of line 197 compares \<^verbatim>\<open>df.iloc[-len(new_df):]\<close> with
  the window. For a window without records the slice is \<^verbatim>\<open>df.iloc[-0:]\<close>, the whole
  frame, which never equals the empty window: the read resets the budget to five. The
  theorem evaluates the loop at a source that shows one data row during the first read
  cycle and only the header row from then on: after seven read cycles the frame holds
  the one record and the budget is still five, and neither the loop nor \<^verbatim>\<open>scrape_data\<close>
  ever returns.
\<close>

theorem empty_windows_never_done:
  "scrape_cycles 7 (\<lambda>t. if t < 2 then Grid [header_row, row_a] else Grid [header_row]) [] 5 0 =
     Inl ([record_a], 5, 14) \<and>
   scrape_loop (\<lambda>t. if t < 2 then Grid [header_row, row_a] else Grid [header_row]) [] 5 0 = None \<and>
   scrape_data (\<lambda>t. if t < 2 then Grid [header_row, row_a] else Grid [header_row]) 0 = None"
proof -
  let ?pg = "\<lambda>t::nat. if t < 2 then Grid [header_row, row_a] else Grid [header_row]"
  have w: "DataFrame 6 (Some (drop 1 (map (drop 1) [header_row, row_a]))) = Inr [record_a]"
    by (simp add: DataFrame_def pad_row_def row_a_def record_a_def)
  have "scrape_loop ?pg [] 5 0 = scrape_loop ?pg (drop_duplicates [record_a]) 5 (Suc (Suc 0))"
    by (rule first_cycle_loop [where rows = "[header_row, row_a]"
          and rows' = "[header_row, row_a]", OF _ _ _ w]) simp_all
  also have "\<dots> = None"
    by (rule header_only_diverges) (simp_all add: drop_duplicates_def)
  finally have l: "scrape_loop ?pg [] 5 0 = None" .
  then have d: "scrape_data ?pg 0 = None" by (simp add: scrape_data_def)
  have "scrape_cycles 7 ?pg [] 5 0 = Inl ([record_a], 5, 14)"
    by code_simp
  with l d show ?thesis by simp
qed

section \<open>Row Accumulator: a static table\<close>

text \<open>
  C3, as amended. Let every look show the same header row followed by the same K rows,
  let K be at least one, and let the K records built from the rows (each row without
  its first cell, over the six columns) be pairwise different. Then \<^verbatim>\<open>scrape_data\<close>
  ends after six read cycles (twelve looks) and returns exactly these K records, in the
  order of the table.
\<close>

theorem static_table_records:
  assumes "DataFrame 6 (Some (map (drop 1) rows)) = Inr df" and "df \<noteq> []" and "distinct df"
  shows "scrape_data (static_source header rows) t = Some (Some df, t + 12) \<and>
    length df = length rows"
proof -
  let ?pg = "static_source header rows"
  have st: "\<forall>t' \<ge> Suc (Suc t). stalled_look df (?pg t')"
    using static_stalled [OF assms(1,2)] by simp
  have e5: "scrape_cycles 5 ?pg df 5 (Suc (Suc t)) = Inr (Inr df, t + 12)"
    using stalled_cycles [OF st assms(3), of 5 5] by simp
  have first: "scrape_cycles (Suc n) ?pg [] 5 t = scrape_cycles n ?pg df 5 (Suc (Suc t))" for n
    using assms
    by (simp add: extract_visible_rows_Grid static_source_def scroll_last_def drop_map
        drop_duplicates_def distinct_remdups_id)
  have "scrape_cycles (Suc 5) ?pg [] 5 t = Inr (Inr df, t + 12)"
    by (simp only: first e5)
  then have "scrape_loop ?pg [] 5 t = Some (Inr df, t + 12)" by (rule scrape_cycles_Inr)
  moreover have "length df = length rows"
    using assms(1) by (auto simp: DataFrame_def split: if_splits)
  ultimately show ?thesis by (simp add: scrape_data_def)
qed

theorem static_table_records_witness:
  "scrape_data (static_source header_row [row_a, row_b]) 0 = Some (Some [record_a, record_b], 12) \<and>
   length [record_a, record_b] = length [row_a, row_b]"
proof -
  have f: "DataFrame 6 (Some (map (drop 1) [row_a, row_b])) = Inr [record_a, record_b]"
    by (simp add: DataFrame_def pad_row_def row_a_def row_b_def record_a_def record_b_def)
  have n: "[record_a, record_b] \<noteq> []" by simp
  have d: "distinct [record_a, record_b]" by (simp add: record_a_def record_b_def)
  show ?thesis using static_table_records [OF f n d, of header_row 0] by simp
qed

text \<open>
  C3 as stated fails for K = 0 and for a table with a repeated row. With no data row
  the frame stays empty and \<^verbatim>\<open>not df.empty\<close> keeps the budget at five; with the same row
  twice the window has two records and the frame, after \<^verbatim>\<open>drop_duplicates\<close>, one, so the
  window never equals the tail of the frame. In both cases \<^verbatim>\<open>scrape_data\<close> does not
  return.
\<close>

theorem static_table_counterexample:
  "scrape_data (static_source header_row []) 0 = None \<and>
   scrape_data (static_source header_row [row_a, row_a]) 0 = None"
proof -
  have "scrape_loop (static_source header_row []) [] 5 0 = None"
    by (rule header_only_diverges) (simp_all add: static_source_def)
  then have k0: "scrape_data (static_source header_row []) 0 = None"
    by (simp add: scrape_data_def)
  let ?pg = "static_source header_row [row_a, row_a]"
  have w: "DataFrame 6 (Some (drop 1 (map (drop 1) (header_row # [row_a, row_a])))) =
      Inr [record_a, record_a]"
    by (simp add: DataFrame_def pad_row_def row_a_def record_a_def)
  have "scrape_loop ?pg [] 5 0 = scrape_loop ?pg (drop_duplicates [record_a, record_a]) 5 (Suc (Suc 0))"
    by (rule first_cycle_loop [where rows = "header_row # [row_a, row_a]"
          and rows' = "header_row # [row_a, row_a]", OF _ _ _ w])
      (simp_all add: static_source_def)
  also have "\<dots> = None"
  proof (rule duplicate_window_diverges)
    show "\<forall>t' \<ge> Suc (Suc 0). \<exists>rows. ?pg t' = Grid rows \<and> rows \<noteq> [] \<and>
        DataFrame 6 (Some (drop 1 (map (drop 1) rows))) = Inr [record_a, record_a]"
      using w by (simp add: static_source_def)
  qed simp_all
  finally have "scrape_data ?pg 0 = None" by (simp add: scrape_data_def)
  with k0 show ?thesis by simp
qed

section \<open>Row Accumulator: a read whose attempts all go stale\<close>

text \<open>
  C10, as amended. If each of the five attempts of \<^verbatim>\<open>extract_visible_rows\<close> meets stale
  handles, the function makes exactly five attempts and returns \<^verbatim>\<open>None\<close>. Taking the
  length of that result raises \<^verbatim>\<open>TypeError\<close>: in the worker, whose zero-row check is the
  first read of the session, the error leaves the \<^verbatim>\<open>try\<close> block before the accumulator is
  called and before anything is written, so the unit fails and is not skipped as empty.
  The DataFrame constructor, however, takes \<^verbatim>\<open>None\<close> for no data: inside \<^verbatim>\<open>scrape_data\<close>
  such a read gives the empty frame, without an error.
\<close>

theorem all_stale_returns_None:
  assumes "\<forall>i<5. pg (t + i) = Stale"
  shows "extract_visible_rows pg t = (None, t + 5) \<and>
    py_len (fst (extract_visible_rows pg t)) = Inl TypeError \<and>
    DataFrame 6 (fst (extract_visible_rows pg t)) = Inr [] \<and>
    (t = 0 \<longrightarrow> page sc = pg \<longrightarrow> page_setup sc = None \<longrightarrow>
       fst (search_select_from_dropdown (sel_state sc)) = None \<longrightarrow>
       select_option_from_dropdown (sel_year sc) = None \<longrightarrow>
       select_option_from_dropdown (sel_category sc) = None \<longrightarrow>
       (\<exists>tr. worker_body output_folder sc u = Some (Some TypeError, tr) \<and>
          ScrapeData \<notin> set tr \<and> written tr = []))"
proof -
  have e: "extract_visible_rows pg t = (None, t + 5)"
    unfolding extract_visible_rows_def using assms by (rule extract_all_stale)
  then have l: "py_len (fst (extract_visible_rows pg t)) = Inl TypeError"
    by (simp add: py_len_def)
  have d: "DataFrame 6 (fst (extract_visible_rows pg t)) = Inr []"
    using e by (simp add: DataFrame_def)
  have "\<exists>tr. worker_body output_folder sc u = Some (Some TypeError, tr) \<and>
      ScrapeData \<notin> set tr \<and> written tr = []"
    if a: "t = 0" "page sc = pg" "page_setup sc = None"
      and b: "fst (search_select_from_dropdown (sel_state sc)) = None"
      and c: "select_option_from_dropdown (sel_year sc) = None"
        "select_option_from_dropdown (sel_category sc) = None"
  proof -
    obtain lg where s: "search_select_from_dropdown (sel_state sc) = (None, lg)"
      using b by (cases "search_select_from_dropdown (sel_state sc)") simp
    show ?thesis
      using a c e s by (cases lg) (simp_all add: worker_body_def py_len_def)
  qed
  with e l d show ?thesis by blast
qed

theorem all_stale_returns_None_witness:
  "extract_visible_rows (\<lambda>t. if t < 5 then Stale else Grid [header_row, row_a]) 0 = (None, 5) \<and>
   (\<exists>tr. worker_body ''out''
      (ok_script (\<lambda>t. if t < 5 then Stale else Grid [header_row, row_a]))
      (''GOA'', ''GEN'', 2015) = Some (Some TypeError, tr))"
proof -
  let ?pg = "\<lambda>t::nat. if t < 5 then Stale else Grid [header_row, row_a]"
  have h: "\<forall>i<5. ?pg (0 + i) = Stale" by simp
  have 1: "page (ok_script ?pg) = ?pg" "page_setup (ok_script ?pg) = None"
    "fst (search_select_from_dropdown (sel_state (ok_script ?pg))) = None"
    "select_option_from_dropdown (sel_year (ok_script ?pg)) = None"
    "select_option_from_dropdown (sel_category (ok_script ?pg)) = None"
    by (simp_all add: ok_script_def ok_search_ui_def ok_direct_ui_def
        search_select_from_dropdown_def select_option_from_dropdown_def)
  show ?thesis
    using all_stale_returns_None [OF h, of "ok_script ?pg" "''out''" "(''GOA'', ''GEN'', 2015)"] 1
    by auto
qed

text \<open>
  C10 as stated fails where it says that building the DataFrame in \<^verbatim>\<open>scrape_data\<close>
  raises a type error: when the first read of \<^verbatim>\<open>scrape_data\<close> returns \<^verbatim>\<open>None\<close> and the grid
  shows one data row afterwards, \<^verbatim>\<open>scrape_data\<close> returns that record.
\<close>

theorem none_read_counterexample:
  "extract_visible_rows (\<lambda>t. if t < 5 then Stale else Grid [header_row, row_a]) 0 = (None, 5) \<and>
   scrape_data (\<lambda>t. if t < 5 then Stale else Grid [header_row, row_a]) 0 =
     Some (Some [record_a], 18)"
  by code_simp

section \<open>Row Accumulator: what is saved\<close>

text \<open>
  C1. Whenever a worker writes its output file, the records of the file are pairwise
  different, and every record is built from a row that some look showed at an index
  of at least one: it is that row without its first cell, over the six columns,
  followed by the three dimension values of the unit. The row at index 0 of a look,
  which every read drops, never contributes a record.
\<close>

theorem persisted_rows_distinct_and_from_data_rows:
  assumes "parallel_scrape_over_categories output_folder sc (state, category, year) pr = Some res"
    and "ToCsv path (FrameCsv rs) \<in> set (trace res)"
  shows "distinct rs \<and>
    (\<forall>r \<in> set rs. \<exists>t rows i. page sc t = Grid rows \<and> 0 < i \<and> i < length rows \<and>
       r = pad_row 6 (drop 1 (rows ! i)) @ [Str state, Str category, Num year])"
proof -
  from assms obtain df t t' where sd: "scrape_data (page sc) t = Some (Some df, t')"
    and rs: "rs = drop_duplicates (add_columns (state, category, year) df)"
    using worker_csv by blast
  from sd have sub: "set df \<subseteq> data_records (page sc)" using scrape_data_records by blast
  have "\<exists>t rows i. page sc t = Grid rows \<and> 0 < i \<and> i < length rows \<and>
       r = pad_row 6 (drop 1 (rows ! i)) @ [Str state, Str category, Num year]"
    if "r \<in> set rs" for r
  proof -
    from that obtain r0 where r0: "r0 \<in> set df"
      and r: "r = r0 @ [Str state, Str category, Num year]"
      unfolding rs set_drop_duplicates add_columns_def by auto
    from r0 sub have "r0 \<in> data_records (page sc)" by blast
    then obtain t rows i where "page sc t = Grid rows" "0 < i" "i < length rows"
      "r0 = pad_row 6 (drop 1 (rows ! i))"
      unfolding data_records_def by blast
    with r show ?thesis by blast
  qed
  moreover have "distinct rs" unfolding rs by (rule distinct_drop_duplicates)
  ultimately show ?thesis by simp
qed

theorem persisted_rows_witness:
  "distinct
     [record_a @ [Str ''GOA'', Str ''GEN'', Num 2015],
      record_b @ [Str ''GOA'', Str ''GEN'', Num 2015]] \<and>
   (\<exists>t rows i. static_source header_row [row_a, row_b] t = Grid rows \<and> 0 < i \<and>
      i < length rows \<and>
      record_b @ [Str ''GOA'', Str ''GEN'', Num 2015] =
        pad_row 6 (drop 1 (rows ! i)) @ [Str ''GOA'', Str ''GEN'', Num 2015])"
proof -
  let ?sc = "ok_script (static_source header_row [row_a, row_b])"
  let ?u = "(''GOA'', ''GEN'', 2015 :: int)"
  let ?rs = "[record_a @ [Str ''GOA'', Str ''GEN'', Num 2015],
      record_b @ [Str ''GOA'', Str ''GEN'', Num 2015]]"
  let ?res = "\<lparr>propagated = None, progress_after = [(?u, 1)],
      trace = [ScrapeData, ToCsv (csv_path ''out'' ?u) (FrameCsv ?rs), DriverQuit, LockAcquire,
        Increment ?u, LockRelease]\<rparr>"
  have run: "parallel_scrape_over_categories ''out'' ?sc ?u [(?u, 0)] = Some ?res"
    by code_simp
  have mem: "ToCsv (csv_path ''out'' ?u) (FrameCsv ?rs) \<in> set (trace ?res)"
    by simp
  have pg: "page ?sc = static_source header_row [row_a, row_b]"
    by (simp add: ok_script_def)
  from persisted_rows_distinct_and_from_data_rows [OF run mem]
  show ?thesis unfolding pg by simp
qed

section \<open>Worker: the cleanup block\<close>




section \<open>Worker: a unit without rows\<close>




section \<open>Completeness Checker: when and what it flags\<close>




section \<open>Task Scheduler: units, progress and the monitor\<close>




end
